theory Spec2Isabelle
  imports Main
begin

section \<open>Structured records\<close>

text \<open>
  Every stage verdict is the result of \<^verbatim>\<open>json.loads\<close>: a tree of mappings, sequences and
  scalars. A Python \<^verbatim>\<open>dict\<close> keeps its keys in insertion order, so a mapping is an
  association list; numbers are integers here, the pipeline never looks inside them.
\<close>

datatype json =
    JNull
  | JBool bool
  | JInt int
  | JStr string
  | JList "json list"
  | JDict "(string \<times> json) list"

text \<open>
  \<^verbatim>\<open>d[k] = v\<close>: an existing key keeps its position and takes the new value, a new key is
  appended. \<^verbatim>\<open>d.get(k)\<close> is \<open>dict_get\<close>. A dict comprehension performs the assignments
  in iteration order, starting from the empty dict.
\<close>

fun dict_set :: "'k \<Rightarrow> 'v \<Rightarrow> ('k \<times> 'v) list \<Rightarrow> ('k \<times> 'v) list" where
  "dict_set k v [] = [(k, v)]"
| "dict_set k v ((k', v') # kvs) =
     (if k' = k then (k', v) # kvs else (k', v') # dict_set k v kvs)"

fun dict_get :: "('k \<times> 'v) list \<Rightarrow> 'k \<Rightarrow> 'v option" where
  "dict_get [] k = None"
| "dict_get ((k', v') # kvs) k = (if k' = k then Some v' else dict_get kvs k)"

definition dict_of_items :: "('k \<times> 'v) list \<Rightarrow> ('k \<times> 'v) list" where
  "dict_of_items kvs = foldl (\<lambda>d (k, v). dict_set k v d) [] kvs"

text \<open>\<^verbatim>\<open>s.replace(old, new)\<close> for one-character \<open>old\<close> and \<open>new\<close>.\<close>

definition str_replace :: "char \<Rightarrow> char \<Rightarrow> string \<Rightarrow> string" where
  "str_replace old new s = map (\<lambda>c. if c = old then new else c) s"

subsection \<open>\<^verbatim>\<open>BaseAgent._sanitize_mongo_keys\<close>\<close>

text \<open>
  \<^verbatim>\<open>
  if isinstance(data, dict):
      return {k.replace('.', '_').replace('$', '_'): self._sanitize_mongo_keys(v)
              for k, v in data.items()}
  elif isinstance(data, list):
      return [self._sanitize_mongo_keys(i) for i in data]
  else:
      return data
  \<close>
\<close>

fun sanitize_mongo_keys :: "json \<Rightarrow> json" where
  "sanitize_mongo_keys (JDict kvs) =
     JDict (dict_of_items
       (map (\<lambda>(k, v). (str_replace CHR ''$'' CHR ''_'' (str_replace CHR ''.'' CHR ''_'' k),
                        sanitize_mongo_keys v)) kvs))"
| "sanitize_mongo_keys (JList xs) = JList (map sanitize_mongo_keys xs)"
| "sanitize_mongo_keys v = v"

subsection \<open>Vocabulary for the sanitizer's contract\<close>

text \<open>The rewriting of one key, as the comprehension applies it.\<close>

definition rename_key :: "string \<Rightarrow> string" where
  "rename_key k = str_replace CHR ''$'' CHR ''_'' (str_replace CHR ''.'' CHR ''_'' k)"






section \<open>Exceptions\<close>

text \<open>
  A raised Python exception is a value; \<open>str_of_exn\<close> is \<^verbatim>\<open>str(e)\<close>. An operation that can
  raise returns \<open>Inl e\<close> together with the world as it was when the exception left it.
\<close>

datatype exn =
    TypeError string
  | AttributeError string
  | OSError string
  | PyMongoError string
  | GenerationError string

fun str_of_exn :: "exn \<Rightarrow> string" where
  "str_of_exn (TypeError m) = m"
| "str_of_exn (AttributeError m) = m"
| "str_of_exn (OSError m) = m"
| "str_of_exn (PyMongoError m) = m"
| "str_of_exn (GenerationError m) = m"

section \<open>The shared document\<close>

text \<open>
  The document of the collection \<^verbatim>\<open>news_items\<close>. The field \<^verbatim>\<open>_id\<close> is \<open>nid\<close>; the status
  strings \<^verbatim>\<open>"processing"\<close>, \<^verbatim>\<open>"completed"\<close> and \<^verbatim>\<open>"error"\<close> are the three constructors;
  \<open>final_decision\<close> and \<open>error\<close> are absent (\<open>None\<close>) until an update sets them.
\<close>

datatype status = Processing | Completed | Error

record news_item =
  nid :: string
  filename :: string
  content :: string
  status :: status
  agents_results :: "(string \<times> json) list"
  created_at :: nat
  final_decision :: "json option"
  error :: "string option"

section \<open>The world outside the orchestrator\<close>

text \<open>
  The collaborators are the document database, the file system and the generation
  service. The world holds the files (path to content), the collection (its documents
  in storage order) and the trace of every store and file operation attempted so far.

  The environment fixes what the collaborators answer during one run: the fingerprint
  function, the clock, the serializer \<^verbatim>\<open>json.dumps\<close>, the outcome of the \<^verbatim>\<open>try\<close> block of
  \<^verbatim>\<open>_get_llm_response\<close> for a stage name and a text (the parsed response, or the exception
  raised while prompting, generating or parsing), the same for the Finalizer (which also
  sees the results so far), and \<open>fault\<close>: whether the \<open>n\<close>-th attempted store or file
  operation raises, and with what.
\<close>

datatype io_op =
    ReplaceOne string
  | FindOne string
  | UpdateOne string "string list"
  | ReadFile string
  | MakeDirs string
  | CopyFile string string
  | WriteFile string
  | RemoveFile string
  | MoveFile string string

record env =
  md5_hexdigest :: "string \<Rightarrow> string"
  now :: nat
  classify_response :: "string \<Rightarrow> string \<Rightarrow> exn + json"
  finalize_response :: "string \<Rightarrow> (string \<times> json) list \<Rightarrow> exn + json"
  json_dumps :: "json \<Rightarrow> string"
  fault :: "nat \<Rightarrow> exn option"

record world =
  files :: "string \<Rightarrow> string option"
  collection :: "news_item list"
  trace :: "io_op list"

type_synonym 'a io = "world \<Rightarrow> (exn + 'a) \<times> world"

text \<open>Sequencing: an exception skips the rest. \<^verbatim>\<open>try: m except Exception as e: h(e)\<close>.\<close>

definition and_then :: "'a io \<Rightarrow> ('a \<Rightarrow> 'b io) \<Rightarrow> 'b io" where
  "and_then m f = (\<lambda>w. case m w of (Inl e, w') \<Rightarrow> (Inl e, w') | (Inr a, w') \<Rightarrow> f a w')"

definition try_except :: "'a io \<Rightarrow> (exn \<Rightarrow> 'a io) \<Rightarrow> 'a io" where
  "try_except m h = (\<lambda>w. case m w of (Inl e, w') \<Rightarrow> h e w' | (Inr a, w') \<Rightarrow> (Inr a, w'))"

text \<open>Every store or file operation is recorded when it is attempted, and may fault.\<close>

definition attempt :: "env \<Rightarrow> io_op \<Rightarrow> unit io" where
  "attempt env op = (\<lambda>w.
     (case fault env (length (trace w)) of Some e \<Rightarrow> Inl e | None \<Rightarrow> Inr (),
      w\<lparr>trace := trace w @ [op]\<rparr>))"

section \<open>\<^verbatim>\<open>Database\<close>\<close>

text \<open>
  \<^verbatim>\<open>find_one\<close>, \<^verbatim>\<open>replace_one(..., upsert=True)\<close> and \<^verbatim>\<open>update_one\<close> with a filter on
  \<^verbatim>\<open>_id\<close> act on the first document with that id; \<^verbatim>\<open>update_one\<close> without a match
  changes nothing. None of the three methods catches anything or tries again.
\<close>

fun find_one :: "news_item list \<Rightarrow> string \<Rightarrow> news_item option" where
  "find_one [] i = None"
| "find_one (d # ds) i = (if nid d = i then Some d else find_one ds i)"

fun replace_one_upsert :: "string \<Rightarrow> news_item \<Rightarrow> news_item list \<Rightarrow> news_item list" where
  "replace_one_upsert i item [] = [item]"
| "replace_one_upsert i item (d # ds) =
     (if nid d = i then item # ds else d # replace_one_upsert i item ds)"

fun update_first :: "string \<Rightarrow> (news_item \<Rightarrow> news_item) \<Rightarrow> news_item list \<Rightarrow> news_item list" where
  "update_first i f [] = []"
| "update_first i f (d # ds) = (if nid d = i then f d # ds else d # update_first i f ds)"

definition save_news_item :: "env \<Rightarrow> news_item \<Rightarrow> unit io" where
  "save_news_item env item =
     and_then (attempt env (ReplaceOne (nid item))) (\<lambda>_ w.
       (Inr (), w\<lparr>collection := replace_one_upsert (nid item) item (collection w)\<rparr>))"

definition get_news_item :: "env \<Rightarrow> string \<Rightarrow> news_item option io" where
  "get_news_item env news_id =
     and_then (attempt env (FindOne news_id)) (\<lambda>_ w.
       (Inr (find_one (collection w) news_id), w))"

definition update_one :: "env \<Rightarrow> string \<Rightarrow> string list \<Rightarrow> (news_item \<Rightarrow> news_item) \<Rightarrow> unit io" where
  "update_one env i paths f =
     and_then (attempt env (UpdateOne i paths)) (\<lambda>_ w.
       (Inr (), w\<lparr>collection := update_first i f (collection w)\<rparr>))"

section \<open>Files\<close>

text \<open>
  \<^verbatim>\<open>os.path.join\<close> and \<^verbatim>\<open>os.path.basename\<close> on POSIX paths. Directories are not
  represented: \<^verbatim>\<open>os.makedirs(..., exist_ok=True)\<close> changes no file. Reading, copying,
  removing or moving a file that does not exist raises.
\<close>

definition os_path_join :: "string \<Rightarrow> string \<Rightarrow> string" where
  "os_path_join a b =
     (if b \<noteq> [] \<and> hd b = CHR ''/'' then b
      else if a = [] \<or> last a = CHR ''/'' then a @ b
      else a @ ''/'' @ b)"

definition os_path_basename :: "string \<Rightarrow> string" where
  "os_path_basename p = rev (takeWhile (\<lambda>c. c \<noteq> CHR ''/'') (rev p))"

definition RECIPIENTS_DIR :: string where
  "RECIPIENTS_DIR = os_path_join ''data'' ''recipients''"

definition ERROR_DIR :: string where
  "ERROR_DIR = os_path_join ''data'' ''error''"

definition read_file :: "env \<Rightarrow> string \<Rightarrow> string io" where
  "read_file env p =
     and_then (attempt env (ReadFile p)) (\<lambda>_ w.
       case files w p of
         None \<Rightarrow> (Inl (OSError ''No such file or directory''), w)
       | Some c \<Rightarrow> (Inr c, w))"

definition os_makedirs :: "env \<Rightarrow> string \<Rightarrow> unit io" where
  "os_makedirs env p = attempt env (MakeDirs p)"

definition shutil_copy2 :: "env \<Rightarrow> string \<Rightarrow> string \<Rightarrow> unit io" where
  "shutil_copy2 env src dst =
     and_then (attempt env (CopyFile src dst)) (\<lambda>_ w.
       case files w src of
         None \<Rightarrow> (Inl (OSError ''No such file or directory''), w)
       | Some c \<Rightarrow>
           if src = dst then (Inl (OSError ''are the same file''), w)
           else (Inr (), w\<lparr>files := (files w)(dst \<mapsto> c)\<rparr>))"

definition write_file :: "env \<Rightarrow> string \<Rightarrow> string \<Rightarrow> unit io" where
  "write_file env p text =
     and_then (attempt env (WriteFile p)) (\<lambda>_ w.
       (Inr (), w\<lparr>files := (files w)(p \<mapsto> text)\<rparr>))"

definition os_remove :: "env \<Rightarrow> string \<Rightarrow> unit io" where
  "os_remove env p =
     and_then (attempt env (RemoveFile p)) (\<lambda>_ w.
       case files w p of
         None \<Rightarrow> (Inl (OSError ''No such file or directory''), w)
       | Some c \<Rightarrow> (Inr (), w\<lparr>files := (files w)(p := None)\<rparr>))"

definition shutil_move :: "env \<Rightarrow> string \<Rightarrow> string \<Rightarrow> unit io" where
  "shutil_move env src dst =
     and_then (attempt env (MoveFile src dst)) (\<lambda>_ w.
       case files w src of
         None \<Rightarrow> (Inl (OSError ''No such file or directory''), w)
       | Some c \<Rightarrow> (Inr (), w\<lparr>files := ((files w)(src := None))(dst \<mapsto> c)\<rparr>))"

section \<open>Agents\<close>

text \<open>
  The five classifiers run \<^verbatim>\<open>_get_llm_response\<close> on the document's text; its
  \<^verbatim>\<open>except\<close> clause turns any exception into \<^verbatim>\<open>{"error": str(e)}\<close>. The Finalizer has
  its own \<^verbatim>\<open>try\<close> block and its own fallback record. \<^verbatim>\<open>BaseAgent.process\<close> sanitizes
  the result and commits it with \<^verbatim>\<open>$set\<close> on the dotted path
  \<^verbatim>\<open>agents_results.<agent_name>\<close>; its first statement reads \<^verbatim>\<open>news_item['_id']\<close>, which
  raises when the item is \<^verbatim>\<open>None\<close>.
\<close>

datatype agent =
    UrgencyAgent | SensitivityAgent | TopicAgent | TypeAgent | RecipientAgent | FinalizerAgent

fun agent_name :: "agent \<Rightarrow> string" where
  "agent_name UrgencyAgent = ''urgency_agent''"
| "agent_name SensitivityAgent = ''sensitivity_agent''"
| "agent_name TopicAgent = ''topic_agent''"
| "agent_name TypeAgent = ''type_agent''"
| "agent_name RecipientAgent = ''recipient_agent''"
| "agent_name FinalizerAgent = ''finalizer_agent''"

definition get_llm_response :: "env \<Rightarrow> agent \<Rightarrow> string \<Rightarrow> json" where
  "get_llm_response env a text =
     (case classify_response env (agent_name a) text of
        Inr j \<Rightarrow> j
      | Inl e \<Rightarrow> JDict [(''error'', JStr (str_of_exn e))])"

fun execute :: "env \<Rightarrow> agent \<Rightarrow> news_item \<Rightarrow> json" where
  "execute env FinalizerAgent item =
     (case finalize_response env (content item) (agents_results item) of
        Inr j \<Rightarrow> j
      | Inl e \<Rightarrow> JDict [(''is_safe'', JBool False), (''final_recipients'', JList []),
                        (''error'', JStr (str_of_exn e))])"
| "execute env a item = get_llm_response env a (content item)"

fun process :: "env \<Rightarrow> agent \<Rightarrow> news_item option \<Rightarrow> json io" where
  "process env a None = (\<lambda>w. (Inl (TypeError ''NoneType object is not subscriptable''), w))"
| "process env a (Some item) =
     (let cleaned_result = sanitize_mongo_keys (execute env a item) in
      and_then
        (update_one env (nid item) [''agents_results.'' @ agent_name a]
           (\<lambda>d. d\<lparr>agents_results := dict_set (agent_name a) cleaned_result (agents_results d)\<rparr>))
        (\<lambda>_ w. (Inr cleaned_result, w)))"

section \<open>\<^verbatim>\<open>Orchestrator\<close>\<close>

text \<open>
  \<^verbatim>\<open>str.lower\<close> on ASCII letters; truth value and iteration of a parsed value as Python
  defines them (\<^verbatim>\<open>if not recipients\<close>, \<^verbatim>\<open>for recipient in recipients\<close>).
\<close>

definition agents :: "agent list" where
  "agents = [UrgencyAgent, SensitivityAgent, TopicAgent, TypeAgent, RecipientAgent]"

definition lower_char :: "char \<Rightarrow> char" where
  "lower_char c =
     (case dict_get (zip ''ABCDEFGHIJKLMNOPQRSTUVWXYZ'' ''abcdefghijklmnopqrstuvwxyz'') c of
        Some l \<Rightarrow> l
      | None \<Rightarrow> c)"

definition slugify :: "string \<Rightarrow> string" where
  "slugify text = str_replace CHR ''/'' CHR ''-'' (str_replace CHR '' '' CHR ''_'' (map lower_char text))"

definition move_to_error :: "env \<Rightarrow> string \<Rightarrow> unit io" where
  "move_to_error env file_path =
     shutil_move env file_path (os_path_join ERROR_DIR (os_path_basename file_path))"

fun truthy :: "json \<Rightarrow> bool" where
  "truthy JNull = False"
| "truthy (JBool b) = b"
| "truthy (JInt n) = (n \<noteq> 0)"
| "truthy (JStr s) = (s \<noteq> [])"
| "truthy (JList xs) = (xs \<noteq> [])"
| "truthy (JDict kvs) = (kvs \<noteq> [])"

fun py_iter :: "json \<Rightarrow> exn + json list" where
  "py_iter (JList xs) = Inr xs"
| "py_iter (JStr s) = Inr (map (\<lambda>c. JStr [c]) s)"
| "py_iter (JDict kvs) = Inr (map (\<lambda>(k, v). JStr k) kvs)"
| "py_iter v = Inl (TypeError ''object is not iterable'')"

definition deliver_one :: "env \<Rightarrow> news_item \<Rightarrow> string \<Rightarrow> json \<Rightarrow> json \<Rightarrow> unit io" where
  "deliver_one env item original_file_path metadata recipient =
     (case recipient of
        JStr r \<Rightarrow>
          (let recipient_dir = os_path_join RECIPIENTS_DIR (slugify r) in
           and_then (os_makedirs env recipient_dir) (\<lambda>_.
           and_then (shutil_copy2 env original_file_path
                       (os_path_join recipient_dir (filename item))) (\<lambda>_.
           write_file env (os_path_join recipient_dir (filename item @ ''.json''))
             (json_dumps env metadata))))
      | _ \<Rightarrow> (\<lambda>w. (Inl (AttributeError ''object has no attribute lower''), w)))"

fun deliver :: "env \<Rightarrow> news_item \<Rightarrow> string \<Rightarrow> json \<Rightarrow> json list \<Rightarrow> unit io" where
  "deliver env item original_file_path metadata [] = (\<lambda>w. (Inr (), w))"
| "deliver env item original_file_path metadata (recipient # rest) =
     and_then (deliver_one env item original_file_path metadata recipient) (\<lambda>_.
       deliver env item original_file_path metadata rest)"

fun distribute :: "env \<Rightarrow> news_item option \<Rightarrow> string \<Rightarrow> unit io" where
  "distribute env None original_file_path =
     (\<lambda>w. (Inl (AttributeError ''NoneType object has no attribute get''), w))"
| "distribute env (Some item) original_file_path =
     (case (case final_decision item of None \<Rightarrow> JDict [] | Some j \<Rightarrow> j) of
        JDict final \<Rightarrow>
          (let recipients = (case dict_get final ''final_recipients'' of
                               None \<Rightarrow> JList [] | Some r \<Rightarrow> r) in
           if \<not> truthy recipients then move_to_error env original_file_path
           else
             (let metadata = JDict [(''original_filename'', JStr (filename item)),
                                    (''id'', JStr (nid item)),
                                    (''metadata'', JDict final)] in
              case py_iter recipients of
                Inl e \<Rightarrow> (\<lambda>w. (Inl e, w))
              | Inr rs \<Rightarrow>
                  and_then (deliver env item original_file_path metadata rs) (\<lambda>_.
                    os_remove env original_file_path)))
      | _ \<Rightarrow> (\<lambda>w. (Inl (AttributeError ''object has no attribute get''), w)))"

fun run_agents :: "env \<Rightarrow> agent list \<Rightarrow> string \<Rightarrow> news_item option \<Rightarrow> world \<Rightarrow> news_item option \<times> world" where
  "run_agents env [] file_hash item w = (item, w)"
| "run_agents env (a # rest) file_hash item w =
     (case and_then (process env a item) (\<lambda>_. get_news_item env file_hash) w of
        (Inr item', w') \<Rightarrow> run_agents env rest file_hash item' w'
      | (Inl e, w') \<Rightarrow> run_agents env rest file_hash item w')"

definition run_finalizer :: "env \<Rightarrow> string \<Rightarrow> string \<Rightarrow> news_item option \<Rightarrow> unit io" where
  "run_finalizer env file_hash file_path item =
     and_then (process env FinalizerAgent item) (\<lambda>final_result.
     and_then (update_one env file_hash [''final_decision'', ''status'']
                 (\<lambda>d. d\<lparr>final_decision := Some final_result, status := Completed\<rparr>)) (\<lambda>_.
     and_then (get_news_item env file_hash) (\<lambda>item'.
     distribute env item' file_path)))"

definition finalizer_failed :: "env \<Rightarrow> string \<Rightarrow> string \<Rightarrow> exn \<Rightarrow> unit io" where
  "finalizer_failed env file_hash file_path e =
     and_then (update_one env file_hash [''status'', ''error'']
                 (\<lambda>d. d\<lparr>status := Error, error := Some (str_of_exn e)\<rparr>)) (\<lambda>_.
     move_to_error env file_path)"

definition new_news_item :: "env \<Rightarrow> string \<Rightarrow> string \<Rightarrow> news_item" where
  "new_news_item env file_path text =
     \<lparr>nid = md5_hexdigest env text, filename = os_path_basename file_path, content = text,
      status = Processing, agents_results = [], created_at = now env,
      final_decision = None, error = None\<rparr>"

definition process_file :: "env \<Rightarrow> string \<Rightarrow> unit io" where
  "process_file env file_path = (\<lambda>w.
     case read_file env file_path w of
       (Inl e, w1) \<Rightarrow> (Inr (), w1)
     | (Inr text, w1) \<Rightarrow>
         (let file_hash = md5_hexdigest env text;
              item = new_news_item env file_path text
          in case save_news_item env item w1 of
               (Inl e, w2) \<Rightarrow> (Inl e, w2)
             | (Inr _, w2) \<Rightarrow>
                 (case run_agents env agents file_hash (Some item) w2 of
                    (item', w3) \<Rightarrow>
                      try_except (run_finalizer env file_hash file_path item')
                        (finalizer_failed env file_hash file_path) w3)))"

section \<open>Vocabulary for the orchestrator's properties\<close>

text \<open>No store or file operation faults.\<close>

definition reliable :: "env \<Rightarrow> bool" where
  "reliable env = (\<forall>n. fault env n = None)"

text \<open>The document after one agent has committed its sanitized result.\<close>

definition commit :: "env \<Rightarrow> news_item \<Rightarrow> agent \<Rightarrow> news_item" where
  "commit env d a =
     d\<lparr>agents_results :=
         dict_set (agent_name a) (sanitize_mongo_keys (execute env a d)) (agents_results d)\<rparr>"

text \<open>The document after the five classifiers, and after the Finalizer's decision.\<close>

definition classified :: "env \<Rightarrow> string \<Rightarrow> string \<Rightarrow> news_item" where
  "classified env file_path text = foldl (commit env) (new_news_item env file_path text) agents"

definition decided :: "env \<Rightarrow> news_item \<Rightarrow> news_item" where
  "decided env d =
     (commit env d FinalizerAgent)
       \<lparr>final_decision := Some (sanitize_mongo_keys (execute env FinalizerAgent d)),
        status := Completed\<rparr>"

text \<open>The operations of one run up to the call of \<^verbatim>\<open>_distribute\<close>, when none faults.\<close>

definition pipeline_ops :: "string \<Rightarrow> string \<Rightarrow> io_op list" where
  "pipeline_ops file_path h =
     [ReadFile file_path, ReplaceOne h]
     @ concat (map (\<lambda>a. [UpdateOne h [''agents_results.'' @ agent_name a], FindOne h]) agents)
     @ [UpdateOne h [''agents_results.finalizer_agent''],
        UpdateOne h [''final_decision'', ''status''], FindOne h]"

text \<open>An action that leaves the collection alone and only appends to the trace.\<close>

definition fs_only :: "'a io \<Rightarrow> bool" where
  "fs_only m = (\<forall>w. collection (snd (m w)) = collection w
                   \<and> (\<exists>ops. trace (snd (m w)) = trace w @ ops))"



definition committed_stages :: "news_item \<Rightarrow> string list" where
  "committed_stages d = map fst (agents_results d)"

text \<open>
  The store operation by which a stage commits its result, and the test that picks the
  \<^verbatim>\<open>update_one\<close> attempts out of a trace.
\<close>

fun is_commit :: "io_op \<Rightarrow> bool" where
  "is_commit (UpdateOne i ps) = True"
| "is_commit op = False"

definition stage_commit :: "string \<Rightarrow> agent \<Rightarrow> io_op" where
  "stage_commit h a = UpdateOne h [''agents_results.'' @ agent_name a]"

subsection \<open>Delivery locations\<close>

text \<open>
  The paths \<^verbatim>\<open>_distribute\<close> writes for one recipient name, the metadata record, the
  three operations of one delivery and their effect on the files; the path
  \<^verbatim>\<open>_move_to_error\<close> moves to; the recipients \<^verbatim>\<open>_distribute\<close> iterates over for a
  document and every path it may write for them.
\<close>

definition recipient_dir :: "string \<Rightarrow> string" where
  "recipient_dir r = os_path_join RECIPIENTS_DIR (slugify r)"



definition error_path :: "string \<Rightarrow> string" where
  "error_path file_path = os_path_join ERROR_DIR (os_path_basename file_path)"






text \<open>The record \<^verbatim>\<open>FinalizerAgent.execute\<close> returns from its \<^verbatim>\<open>except\<close> clause.\<close>

definition fallback_decision :: "exn \<Rightarrow> (string \<times> json) list" where
  "fallback_decision e =
     [(''is_safe'', JBool False), (''final_recipients'', JList []),
      (''error'', JStr (str_of_exn e))]"

section \<open>Example runs\<close>

text \<open>
  The scenario of the specification: the bytes \<^verbatim>\<open>URGENT: outage\<close> with fingerprint
  \<^verbatim>\<open>h1\<close> arrive in the feed; the urgency stage answers \<^verbatim>\<open>{level: Immediate}\<close>, the
  recipient stage \<^verbatim>\<open>{recipients: [Engineering]}\<close>, the other three stages time out, and
  the Finalizer decides for \<^verbatim>\<open>Engineering\<close>. Nothing faults.
\<close>

definition scenario_env :: env where
  "scenario_env =
     \<lparr>md5_hexdigest = (\<lambda>text. ''h1''),
      now = 0,
      classify_response = (\<lambda>name text.
        if name = ''urgency_agent'' then Inr (JDict [(''level'', JStr ''Immediate'')])
        else if name = ''recipient_agent''
          then Inr (JDict [(''recipients'', JList [JStr ''Engineering''])])
        else Inl (GenerationError ''timeout'')),
      finalize_response = (\<lambda>text results.
        Inr (JDict [(''is_safe'', JBool True),
                    (''final_recipients'', JList [JStr ''Engineering'']),
                    (''final_urgency'', JStr ''Immediate'')])),
      json_dumps = (\<lambda>j. ''{...}''),
      fault = (\<lambda>n. None)\<rparr>"

definition scenario_world :: world where
  "scenario_world =
     \<lparr>files = [''data/feed/outage.txt'' \<mapsto> ''URGENT: outage''], collection = [], trace = []\<rparr>"




text \<open>
  The Finalizer's generation call faults; and, separately, the store is down when the
  Finalizer commits on a document that the five classifiers have completed.
\<close>

definition finalizer_down_env :: env where
  "finalizer_down_env =
     scenario_env\<lparr>finalize_response := (\<lambda>text results. Inl (GenerationError ''service unavailable''))\<rparr>"

definition store_down_env :: env where
  "store_down_env =
     scenario_env\<lparr>fault := (\<lambda>n. if n = 0 then Some (PyMongoError ''connection lost'') else None)\<rparr>"

definition classified_item :: news_item where
  "classified_item = classified scenario_env ''data/feed/outage.txt'' ''URGENT: outage''"

definition classified_world :: world where
  "classified_world = scenario_world\<lparr>collection := [classified_item]\<rparr>"

text \<open>A completed document whose decision names no recipient.\<close>

definition declined_item :: news_item where
  "declined_item =
     \<lparr>nid = ''h1'', filename = ''outage.txt'', content = ''URGENT: outage'', status = Completed,
      agents_results = [], created_at = 0,
      final_decision = Some (JDict [(''is_safe'', JBool True), (''final_recipients'', JList [])]),
      error = None\<rparr>"






text \<open>
  The third operation of the run, the commit of the first stage, fails in the store;
  \<open>saved_world\<close> is the world in which that commit is attempted.
\<close>

definition flaky_store_env :: env where
  "flaky_store_env =
     scenario_env\<lparr>fault := (\<lambda>n. if n = 2 then Some (PyMongoError ''connection lost'') else None)\<rparr>"

definition saved_item :: news_item where
  "saved_item = new_news_item scenario_env ''data/feed/outage.txt'' ''URGENT: outage''"

definition saved_world :: world where
  "saved_world =
     scenario_world\<lparr>collection := [saved_item],
                    trace := [ReadFile ''data/feed/outage.txt'', ReplaceOne ''h1'']\<rparr>"

section \<open>Association lists as Python dicts\<close>

lemma dict_set_keys: "fst ` set (dict_set k v d) = insert k (fst ` set d)"
proof (induction d)
  case Nil
  then show ?case by simp
next
  case (Cons p d)
  obtain k' v' where p: "p = (k', v')" by (cases p)
  show ?case
  proof (cases "k' = k")
    case True
    with p show ?thesis by simp
  next
    case False
    have "fst ` set ((k', v') # dict_set k v d) = insert k' (fst ` set (dict_set k v d))"
      by simp
    also have "\<dots> = insert k' (insert k (fst ` set d))"
      by (simp only: Cons.IH)
    finally show ?thesis using False p by (simp add: insert_commute)
  qed
qed

lemma dict_set_distinct:
  "distinct (map fst d) \<Longrightarrow> distinct (map fst (dict_set k v d))"
proof (induction d)
  case Nil
  then show ?case by simp
next
  case (Cons p d)
  obtain k' v' where p: "p = (k', v')" by (cases p)
  show ?case
  proof (cases "k' = k")
    case True
    with Cons.prems p show ?thesis by simp
  next
    case False
    from Cons.prems p have "k' \<notin> fst ` set d" by simp
    with False have "k' \<notin> fst ` set (dict_set k v d)" by (simp add: dict_set_keys)
    with False Cons p show ?thesis by simp
  qed
qed

lemma dict_set_fresh: "k \<notin> fst ` set d \<Longrightarrow> dict_set k v d = d @ [(k, v)]"
  by (induction d) auto

lemma dict_set_subset: "set (dict_set k v d) \<subseteq> insert (k, v) (set d)"
  by (induction d) (auto split: if_splits)

lemma dict_get_set_same: "dict_get (dict_set k v d) k = Some v"
  by (induction d) auto

lemma dict_get_set_other: "k' \<noteq> k \<Longrightarrow> dict_get (dict_set k v d) k' = dict_get d k'"
  by (induction d) auto

lemma foldl_dict_set_distinct:
  "distinct (map fst acc) \<Longrightarrow>
   distinct (map fst (foldl (\<lambda>d (k, v). dict_set k v d) acc kvs))"
  by (induction kvs arbitrary: acc) (auto simp: dict_set_distinct)

lemma foldl_dict_set_subset:
  "set (foldl (\<lambda>d (k, v). dict_set k v d) acc kvs) \<subseteq> set acc \<union> set kvs"
proof (induction kvs arbitrary: acc)
  case Nil
  then show ?case by simp
next
  case (Cons p kvs)
  obtain k v where p: "p = (k, v)" by (cases p)
  have "set (foldl (\<lambda>d (k, v). dict_set k v d) (dict_set k v acc) kvs)
          \<subseteq> set (dict_set k v acc) \<union> set kvs"
    by (rule Cons.IH)
  also have "\<dots> \<subseteq> set acc \<union> set (p # kvs)"
    using dict_set_subset [of k v acc] p by auto
  finally show ?case using p by simp
qed

lemma foldl_dict_set_id:
  "distinct (map fst (acc @ kvs)) \<Longrightarrow>
   foldl (\<lambda>d (k, v). dict_set k v d) acc kvs = acc @ kvs"
proof (induction kvs arbitrary: acc)
  case Nil
  then show ?case by simp
next
  case (Cons p kvs)
  obtain k v where p: "p = (k, v)" by (cases p)
  from Cons.prems p have fresh: "k \<notin> fst ` set acc" by auto
  from Cons.prems p have "distinct (map fst ((acc @ [(k, v)]) @ kvs))" by auto
  then have "foldl (\<lambda>d (k, v). dict_set k v d) (acc @ [(k, v)]) kvs = (acc @ [(k, v)]) @ kvs"
    by (rule Cons.IH)
  then show ?case using p fresh by (simp add: dict_set_fresh)
qed

lemma dict_of_items_distinct: "distinct (map fst (dict_of_items kvs))"
  unfolding dict_of_items_def by (rule foldl_dict_set_distinct) simp

lemma dict_of_items_subset: "set (dict_of_items kvs) \<subseteq> set kvs"
  unfolding dict_of_items_def using foldl_dict_set_subset [of "[]" kvs] by simp

lemma dict_of_items_id: "distinct (map fst kvs) \<Longrightarrow> dict_of_items kvs = kvs"
  unfolding dict_of_items_def using foldl_dict_set_id [of "[]" kvs] by simp

section \<open>Properties of the result sanitizer\<close>

lemma str_replace_absent: "old \<notin> set s \<Longrightarrow> str_replace old new s = s"
  by (induction s) (auto simp: str_replace_def)

lemma rename_key_clean:
  "CHR ''.'' \<notin> set (rename_key k) \<and> CHR ''$'' \<notin> set (rename_key k)"
  by (auto simp: rename_key_def str_replace_def)

lemma rename_key_id:
  "CHR ''.'' \<notin> set k \<Longrightarrow> CHR ''$'' \<notin> set k \<Longrightarrow> rename_key k = k"
  by (simp add: rename_key_def str_replace_absent)

lemma sanitize_dict:
  "sanitize_mongo_keys (JDict kvs) =
     JDict (dict_of_items (map (\<lambda>(k, v). (rename_key k, sanitize_mongo_keys v)) kvs))"
  by (simp add: rename_key_def)







text \<open>
  C10: sanitizing twice is sanitizing once. After the first pass every key is free of
  \<^verbatim>\<open>.\<close> and \<^verbatim>\<open>$\<close> and the keys of each mapping are pairwise different, so the second
  pass rewrites nothing and merges nothing.
\<close>

theorem sanitize_idempotent:
  "sanitize_mongo_keys (sanitize_mongo_keys d) = sanitize_mongo_keys d"
proof (induction d rule: sanitize_mongo_keys.induct)
  case (1 kvs)
  let ?f = "\<lambda>(k, v). (rename_key k, sanitize_mongo_keys v)"
  let ?D = "dict_of_items (map ?f kvs)"
  have stable: "?f p = p" if "p \<in> set ?D" for p
  proof -
    from that have "p \<in> set (map ?f kvs)" using dict_of_items_subset by blast
    then obtain k0 v0 where kv: "(k0, v0) \<in> set kvs"
        "p = (rename_key k0, sanitize_mongo_keys v0)"
      by auto
    have "rename_key (rename_key k0) = rename_key k0"
      using rename_key_clean [of k0] by (simp add: rename_key_id)
    moreover have "sanitize_mongo_keys (sanitize_mongo_keys v0) = sanitize_mongo_keys v0"
      using "1.IH" [of "(k0, v0)" k0 v0] kv(1) by simp
    ultimately show ?thesis using kv(2) by simp
  qed
  then have "map ?f ?D = ?D" by (simp add: map_idI)
  moreover have "dict_of_items ?D = ?D"
    by (rule dict_of_items_id) (rule dict_of_items_distinct)
  ultimately show ?case unfolding sanitize_dict by simp
next
  case (2 xs)
  then show ?case by simp
qed simp_all

section \<open>Store operations and the stage loop when nothing faults\<close>

lemma and_then_Inr: "m w = (Inr a, w') \<Longrightarrow> and_then m f w = f a w'"
  by (simp add: and_then_def)

lemma and_then_Inl: "m w = (Inl e, w') \<Longrightarrow> and_then m f w = (Inl e, w')"
  by (simp add: and_then_def)

lemma attempt_ok:
  "fault env (length (trace w)) = None \<Longrightarrow> attempt env op w = (Inr (), w\<lparr>trace := trace w @ [op]\<rparr>)"
  by (simp add: attempt_def)

lemma attempt_reliable:
  "reliable env \<Longrightarrow> attempt env op w = (Inr (), w\<lparr>trace := trace w @ [op]\<rparr>)"
  by (simp add: attempt_def reliable_def)

lemma save_news_item_reliable:
  "reliable env \<Longrightarrow> save_news_item env item w =
     (Inr (), w\<lparr>trace := trace w @ [ReplaceOne (nid item)],
                collection := replace_one_upsert (nid item) item (collection w)\<rparr>)"
  by (simp add: save_news_item_def and_then_def attempt_reliable)

lemma get_news_item_reliable:
  "reliable env \<Longrightarrow> get_news_item env i w =
     (Inr (find_one (collection w) i), w\<lparr>trace := trace w @ [FindOne i]\<rparr>)"
  by (simp add: get_news_item_def and_then_def attempt_reliable)

lemma update_one_reliable:
  "reliable env \<Longrightarrow> update_one env i ps f w =
     (Inr (), w\<lparr>trace := trace w @ [UpdateOne i ps],
                collection := update_first i f (collection w)\<rparr>)"
  by (simp add: update_one_def and_then_def attempt_reliable)

lemma find_one_nid: "find_one c i = Some d \<Longrightarrow> nid d = i"
  by (induction c) (auto split: if_splits)

lemma update_first_const:
  "find_one c i = Some d \<Longrightarrow> update_first i f c = update_first i (\<lambda>_. f d) c"
  by (induction c) (auto split: if_splits)

lemma update_first_same: "find_one c i = Some d \<Longrightarrow> update_first i (\<lambda>_. d) c = c"
  by (induction c) (auto split: if_splits)

lemma find_one_update_first:
  "find_one c i = Some d \<Longrightarrow> nid d' = i \<Longrightarrow> find_one (update_first i (\<lambda>_. d') c) i = Some d'"
  by (induction c) (auto split: if_splits)

lemma update_first_twice:
  "nid a = i \<Longrightarrow> update_first i (\<lambda>_. b) (update_first i (\<lambda>_. a) c) = update_first i (\<lambda>_. b) c"
  by (induction c) auto

lemma update_first_upsert:
  "nid a = i \<Longrightarrow> update_first i (\<lambda>_. b) (replace_one_upsert i a c) = replace_one_upsert i b c"
  by (induction c) auto

lemma find_one_upsert: "nid a = i \<Longrightarrow> find_one (replace_one_upsert i a c) i = Some a"
  by (induction c) auto

lemma nid_commit: "nid (commit env d a) = nid d"
  by (simp add: commit_def)

lemma nid_foldl_commit: "nid (foldl (commit env) d as) = nid d"
  by (induction as arbitrary: d) (simp_all add: nid_commit)

lemma process_reliable:
  assumes "reliable env" "find_one (collection w) h = Some it"
  shows "process env a (Some it) w =
     (Inr (sanitize_mongo_keys (execute env a it)),
      w\<lparr>trace := trace w @ [UpdateOne h [''agents_results.'' @ agent_name a]],
        collection := update_first h (\<lambda>_. commit env it a) (collection w)\<rparr>)"
proof -
  have h: "nid it = h" using assms(2) by (rule find_one_nid)
  let ?F = "\<lambda>d. d\<lparr>agents_results :=
         dict_set (agent_name a) (sanitize_mongo_keys (execute env a it)) (agents_results d)\<rparr>"
  have "update_first h ?F (collection w) = update_first h (\<lambda>_. ?F it) (collection w)"
    using assms(2) by (rule update_first_const)
  moreover have "?F it = commit env it a" by (simp add: commit_def)
  ultimately show ?thesis
    using assms(1) by (simp add: h and_then_def update_one_reliable Let_def)
qed

lemma run_agents_reliable:
  assumes "reliable env" "find_one (collection w) h = Some it"
  shows "run_agents env as h (Some it) w =
     (Some (foldl (commit env) it as),
      w\<lparr>trace := trace w @ concat (map (\<lambda>a. [UpdateOne h [''agents_results.'' @ agent_name a], FindOne h]) as),
        collection := update_first h (\<lambda>_. foldl (commit env) it as) (collection w)\<rparr>)"
  using assms(2)
proof (induction as arbitrary: it w)
  case Nil
  then show ?case by (simp add: update_first_same)
next
  case (Cons a as)
  have h: "nid it = h" using Cons.prems by (rule find_one_nid)
  let ?it1 = "commit env it a"
  let ?w1 = "w\<lparr>trace := trace w @ [UpdateOne h [''agents_results.'' @ agent_name a]],
        collection := update_first h (\<lambda>_. ?it1) (collection w)\<rparr>"
  let ?w2 = "?w1\<lparr>trace := trace ?w1 @ [FindOne h]\<rparr>"
  have f1: "find_one (collection ?w1) h = Some ?it1"
    using Cons.prems h by (simp add: find_one_update_first nid_commit)
  have step: "and_then (process env a (Some it)) (\<lambda>_. get_news_item env h) w = (Inr (Some ?it1), ?w2)"
    using process_reliable [OF assms(1) Cons.prems, of a] f1
    by (simp add: and_then_def get_news_item_reliable [OF assms(1)])
  have f2: "find_one (collection ?w2) h = Some ?it1" using f1 by simp
  show ?case
    using Cons.IH [OF f2] step h
    by (simp add: update_first_twice nid_commit)
qed

lemma fs_onlyD:
  "fs_only m \<Longrightarrow> m w = (r, w') \<Longrightarrow> collection w' = collection w \<and> (\<exists>ops. trace w' = trace w @ ops)"
  unfolding fs_only_def by (metis snd_conv)

lemma fs_only_return: "fs_only (\<lambda>w. (r, w))"
  by (simp add: fs_only_def)

lemma fs_only_attempt: "fs_only (attempt env op)"
  by (simp add: fs_only_def attempt_def)

lemma fs_only_and_then:
  assumes "fs_only m" "\<And>a. fs_only (f a)"
  shows "fs_only (and_then m f)"
  unfolding fs_only_def
proof
  fix w
  obtain r w1 where m: "m w = (r, w1)" by (cases "m w")
  from fs_onlyD [OF assms(1) m] obtain ops1 where
    1: "collection w1 = collection w" "trace w1 = trace w @ ops1" by blast
  show "collection (snd (and_then m f w)) = collection w
        \<and> (\<exists>ops. trace (snd (and_then m f w)) = trace w @ ops)"
  proof (cases r)
    case (Inl e)
    with m 1 show ?thesis by (simp add: and_then_def)
  next
    case (Inr a)
    obtain r2 w2 where f: "f a w1 = (r2, w2)" by (cases "f a w1")
    from fs_onlyD [OF assms(2) f] obtain ops2 where
      2: "collection w2 = collection w1" "trace w2 = trace w1 @ ops2" by blast
    with m 1 Inr f show ?thesis by (simp add: and_then_def)
  qed
qed

lemma fs_only_os_makedirs: "fs_only (os_makedirs env p)"
  by (simp add: os_makedirs_def fs_only_attempt)

lemma fs_only_shutil_copy2: "fs_only (shutil_copy2 env src dst)"
  unfolding shutil_copy2_def
  by (rule fs_only_and_then [OF fs_only_attempt]) (simp add: fs_only_def split: option.splits)

lemma fs_only_write_file: "fs_only (write_file env p t)"
  unfolding write_file_def
  by (rule fs_only_and_then [OF fs_only_attempt]) (simp add: fs_only_def)

lemma fs_only_os_remove: "fs_only (os_remove env p)"
  unfolding os_remove_def
  by (rule fs_only_and_then [OF fs_only_attempt]) (simp add: fs_only_def split: option.splits)

lemma fs_only_shutil_move: "fs_only (shutil_move env src dst)"
  unfolding shutil_move_def
  by (rule fs_only_and_then [OF fs_only_attempt]) (simp add: fs_only_def split: option.splits)

lemma fs_only_move_to_error: "fs_only (move_to_error env p)"
  by (simp add: move_to_error_def fs_only_shutil_move)

lemma fs_only_deliver_one: "fs_only (deliver_one env item p md r)"
  unfolding deliver_one_def
  by (cases r)
     (auto simp: Let_def fs_only_return
           intro!: fs_only_and_then fs_only_os_makedirs fs_only_shutil_copy2 fs_only_write_file)

lemma fs_only_deliver: "fs_only (deliver env item p md rs)"
  by (induction rs) (auto simp: fs_only_return intro!: fs_only_and_then fs_only_deliver_one)

lemma fs_only_distribute: "fs_only (distribute env item p)"
proof (cases item)
  case None
  then show ?thesis by (simp add: fs_only_return)
next
  case (Some it)
  show ?thesis
    unfolding Some distribute.simps
    by (auto simp: Let_def fs_only_return fs_only_move_to_error
             split: option.splits json.splits sum.splits
             intro!: fs_only_and_then fs_only_deliver fs_only_os_remove)
qed

lemma finalize_reliable:
  assumes "reliable env" "find_one (collection w) h = Some it"
  shows "try_except (run_finalizer env h file_path (Some it)) (finalizer_failed env h file_path) w =
     (case distribute env (Some (decided env it)) file_path
             (w\<lparr>trace := trace w @ [UpdateOne h [''agents_results.finalizer_agent''],
                                     UpdateOne h [''final_decision'', ''status''], FindOne h],
                collection := update_first h (\<lambda>_. decided env it) (collection w)\<rparr>) of
        (Inr u, w') \<Rightarrow> (Inr u, w')
      | (Inl e, w') \<Rightarrow> finalizer_failed env h file_path e w')"
proof -
  have h: "nid it = h" using assms(2) by (rule find_one_nid)
  let ?it6 = "commit env it FinalizerAgent"
  let ?F = "\<lambda>d. d\<lparr>final_decision := Some (sanitize_mongo_keys (execute env FinalizerAgent it)),
                    status := Completed\<rparr>"
  let ?c1 = "update_first h (\<lambda>_. ?it6) (collection w)"
  have f1: "find_one ?c1 h = Some ?it6"
    using assms(2) h by (simp add: find_one_update_first nid_commit)
  have "update_first h ?F ?c1 = update_first h (\<lambda>_. ?F ?it6) ?c1"
    using f1 by (rule update_first_const)
  also have "\<dots> = update_first h (\<lambda>_. decided env it) (collection w)"
    using h by (simp add: update_first_twice nid_commit decided_def)
  finally have c2: "update_first h ?F ?c1 = update_first h (\<lambda>_. decided env it) (collection w)" .
  have f2: "find_one (update_first h (\<lambda>_. decided env it) (collection w)) h = Some (decided env it)"
    using assms(2) h by (simp add: find_one_update_first nid_commit decided_def)
  let ?rf = "sanitize_mongo_keys (execute env FinalizerAgent it)"
  let ?w1 = "w\<lparr>trace := trace w @ [UpdateOne h [''agents_results.'' @ agent_name FinalizerAgent]],
                collection := ?c1\<rparr>"
  let ?w2 = "?w1\<lparr>trace := trace ?w1 @ [UpdateOne h [''final_decision'', ''status'']],
                  collection := update_first h ?F (collection ?w1)\<rparr>"
  let ?w3 = "?w2\<lparr>trace := trace ?w2 @ [FindOne h]\<rparr>"
  have p: "process env FinalizerAgent (Some it) w = (Inr ?rf, ?w1)"
    by (rule process_reliable [OF assms])
  have u: "update_one env h [''final_decision'', ''status''] ?F ?w1 = (Inr (), ?w2)"
    by (rule update_one_reliable [OF assms(1)])
  have g: "get_news_item env h ?w2 = (Inr (Some (decided env it)), ?w3)"
    using c2 f2 by (simp add: get_news_item_reliable [OF assms(1)])
  have w3: "?w3 = w\<lparr>trace := trace w @ [UpdateOne h [''agents_results.finalizer_agent''],
                                     UpdateOne h [''final_decision'', ''status''], FindOne h],
                collection := update_first h (\<lambda>_. decided env it) (collection w)\<rparr>"
    using c2 by simp
  have "run_finalizer env h file_path (Some it) w = distribute env (Some (decided env it)) file_path ?w3"
    unfolding run_finalizer_def
    by (simp only: and_then_Inr [of "process env FinalizerAgent (Some it)", OF p]
          and_then_Inr [of "update_one env h [''final_decision'', ''status''] ?F", OF u]
          and_then_Inr [of "get_news_item env h", OF g])
  then show ?thesis
    unfolding w3 by (simp add: try_except_def split: prod.splits sum.splits)
qed

lemma read_file_reliable:
  "reliable env \<Longrightarrow> files w p = Some text \<Longrightarrow>
   read_file env p w = (Inr text, w\<lparr>trace := trace w @ [ReadFile p]\<rparr>)"
  by (simp add: read_file_def and_then_def attempt_reliable)

lemma process_file_reliable:
  assumes "reliable env" "files w file_path = Some text"
  shows "process_file env file_path w =
     (case distribute env (Some (decided env (classified env file_path text))) file_path
             (w\<lparr>trace := trace w @ pipeline_ops file_path (md5_hexdigest env text),
                collection := replace_one_upsert (md5_hexdigest env text)
                                (decided env (classified env file_path text)) (collection w)\<rparr>) of
        (Inr u, w') \<Rightarrow> (Inr u, w')
      | (Inl e, w') \<Rightarrow> finalizer_failed env (md5_hexdigest env text) file_path e w')"
proof -
  let ?h = "md5_hexdigest env text"
  let ?it0 = "new_news_item env file_path text"
  let ?it5 = "classified env file_path text"
  let ?w1 = "w\<lparr>trace := trace w @ [ReadFile file_path]\<rparr>"
  let ?w2 = "?w1\<lparr>trace := trace ?w1 @ [ReplaceOne ?h],
                collection := replace_one_upsert ?h ?it0 (collection ?w1)\<rparr>"
  let ?w3 = "?w2\<lparr>trace := trace ?w2 @ concat (map (\<lambda>a. [UpdateOne ?h [''agents_results.'' @ agent_name a], FindOne ?h]) agents),
        collection := update_first ?h (\<lambda>_. ?it5) (collection ?w2)\<rparr>"
  have h0: "nid ?it0 = ?h" by (simp add: new_news_item_def)
  have h5: "nid ?it5 = ?h" by (simp add: classified_def nid_foldl_commit h0)
  have r: "read_file env file_path w = (Inr text, ?w1)"
    using assms by (rule read_file_reliable)
  have s: "save_news_item env ?it0 ?w1 = (Inr (), ?w2)"
    using save_news_item_reliable [OF assms(1), of ?it0 ?w1] h0 by simp
  have f2: "find_one (collection ?w2) ?h = Some ?it0"
    using h0 by (simp add: find_one_upsert)
  have a: "run_agents env agents ?h (Some ?it0) ?w2 = (Some ?it5, ?w3)"
    using run_agents_reliable [OF assms(1) f2, of agents] by (simp add: classified_def)
  have f3: "find_one (collection ?w3) ?h = Some ?it5"
    using f2 h5 by (simp add: find_one_update_first)
  have c: "update_first ?h (\<lambda>_. decided env ?it5) (collection ?w3)
         = replace_one_upsert ?h (decided env ?it5) (collection w)"
    using h0 h5 by (simp add: update_first_twice update_first_upsert)
  have t: "trace ?w3 @ [UpdateOne ?h [''agents_results.finalizer_agent''],
                        UpdateOne ?h [''final_decision'', ''status''], FindOne ?h]
         = trace w @ pipeline_ops file_path ?h"
    by (simp add: pipeline_ops_def)
  have "process_file env file_path w =
          try_except (run_finalizer env ?h file_path (Some ?it5))
            (finalizer_failed env ?h file_path) ?w3"
    unfolding process_file_def
    using r s a by (simp add: Let_def new_news_item_def)
  also note finalize_reliable [OF assms(1) f3, of file_path]
  finally show ?thesis
    unfolding c t by simp
qed

section \<open>Namespace isolation of a stage commit\<close>









section \<open>Store operations under faults\<close>

lemma save_news_item_once:
  assumes "save_news_item env item w = (r, w')"
  shows "trace w' = trace w @ [ReplaceOne (nid item)] \<and> files w' = files w
       \<and> (case fault env (length (trace w)) of
            Some e \<Rightarrow> r = Inl e \<and> collection w' = collection w
          | None \<Rightarrow> r = Inr () \<and> collection w' = replace_one_upsert (nid item) item (collection w))"
  using assms by (auto simp: save_news_item_def and_then_def attempt_def split: option.splits)

lemma get_news_item_once:
  assumes "get_news_item env i w = (r, w')"
  shows "trace w' = trace w @ [FindOne i] \<and> files w' = files w \<and> collection w' = collection w
       \<and> (case fault env (length (trace w)) of
            Some e \<Rightarrow> r = Inl e
          | None \<Rightarrow> r = Inr (find_one (collection w) i))"
  using assms by (auto simp: get_news_item_def and_then_def attempt_def split: option.splits)

lemma update_one_once:
  assumes "update_one env i ps f w = (r, w')"
  shows "trace w' = trace w @ [UpdateOne i ps] \<and> files w' = files w
       \<and> (case fault env (length (trace w)) of
            Some e \<Rightarrow> r = Inl e \<and> collection w' = collection w
          | None \<Rightarrow> r = Inr () \<and> collection w' = update_first i f (collection w))"
  using assms by (auto simp: update_one_def and_then_def attempt_def split: option.splits)

lemma find_one_update_first_None:
  "(\<And>d. nid (f d) = nid d) \<Longrightarrow> (find_one (update_first i f c) h = None) = (find_one c h = None)"
  by (induction c) auto

lemma process_trace:
  assumes "process env a (Some it) w = (r, w')"
  shows "trace w' = trace w @ [stage_commit (nid it) a]
       \<and> (find_one (collection w') h = None) = (find_one (collection w) h = None)"
proof -
  let ?f = "\<lambda>d. d\<lparr>agents_results := dict_set (agent_name a)
              (sanitize_mongo_keys (execute env a it)) (agents_results d)\<rparr>"
  obtain r1 w1 where u: "update_one env (nid it) [''agents_results.'' @ agent_name a] ?f w = (r1, w1)"
    by (cases "update_one env (nid it) [''agents_results.'' @ agent_name a] ?f w")
  have w1: "w' = w1" using assms u by (cases r1) (auto simp: Let_def and_then_def)
  have "(find_one (update_first (nid it) ?f (collection w)) h = None) = (find_one (collection w) h = None)"
    by (rule find_one_update_first_None) simp
  then show ?thesis
    using update_one_once [OF u] w1 by (auto simp: stage_commit_def split: option.splits)
qed

lemma run_agents_commits:
  assumes "run_agents env as h (Some it) w = (item', w')" "nid it = h"
    "find_one (collection w) h \<noteq> None"
  shows "\<exists>ops it'. trace w' = trace w @ ops \<and> filter is_commit ops = map (stage_commit h) as
           \<and> item' = Some it' \<and> nid it' = h \<and> find_one (collection w') h \<noteq> None"
  using assms
proof (induction as arbitrary: it w)
  case Nil
  then show ?case by auto
next
  case (Cons a as)
  obtain r1 w1 where p: "process env a (Some it) w = (r1, w1)"
    by (cases "process env a (Some it) w")
  from process_trace [OF p, of h] Cons.prems(2,3) have
    t1: "trace w1 = trace w @ [stage_commit h a]" and f1: "find_one (collection w1) h \<noteq> None"
    by auto
  show ?case
  proof (cases r1)
    case (Inl e)
    with p Cons.prems(1) have "run_agents env as h (Some it) w1 = (item', w')"
      by (simp add: and_then_def)
    from Cons.IH [OF this Cons.prems(2) f1] t1 show ?thesis
      by (auto simp: stage_commit_def)
  next
    case (Inr res)
    obtain r2 w2 where g: "get_news_item env h w1 = (r2, w2)"
      by (cases "get_news_item env h w1")
    from get_news_item_once [OF g] t1 f1 have
      t2: "trace w2 = trace w @ [stage_commit h a, FindOne h]"
      and f2: "find_one (collection w2) h \<noteq> None"
      and r2: "(\<exists>e. r2 = Inl e) \<or> r2 = Inr (find_one (collection w1) h)"
      by (auto split: option.splits)
    from f1 obtain it1 where it1: "find_one (collection w1) h = Some it1" by auto
    have n1: "nid it1 = h" using it1 by (rule find_one_nid)
    from r2 have "\<exists>it2. nid it2 = h \<and> run_agents env as h (Some it2) w2 = (item', w')"
    proof
      assume "\<exists>e. r2 = Inl e"
      with p Inr g Cons.prems(1,2) show ?thesis by (auto simp: and_then_def)
    next
      assume "r2 = Inr (find_one (collection w1) h)"
      with p Inr g Cons.prems(1) it1 n1 show ?thesis by (auto simp: and_then_def)
    qed
    then obtain it2 where "nid it2 = h" "run_agents env as h (Some it2) w2 = (item', w')" by blast
    from Cons.IH [OF this(2) this(1) f2] t2 show ?thesis
      by (auto simp: stage_commit_def)
  qed
qed

section \<open>Distribution\<close>

lemma shutil_move_ok:
  "fault env (length (trace w)) = None \<Longrightarrow> files w src = Some text \<Longrightarrow>
   shutil_move env src dst w =
     (Inr (), w\<lparr>trace := trace w @ [MoveFile src dst],
                files := ((files w)(src := None))(dst \<mapsto> text)\<rparr>)"
  by (simp add: shutil_move_def and_then_def attempt_def)

lemma move_to_error_ok:
  "fault env (length (trace w)) = None \<Longrightarrow> files w src = Some text \<Longrightarrow>
   move_to_error env src w =
     (Inr (), w\<lparr>trace := trace w @ [MoveFile src (error_path src)],
                files := ((files w)(src := None))(error_path src \<mapsto> text)\<rparr>)"
  by (simp add: move_to_error_def error_path_def shutil_move_ok)

lemma distribute_no_recipients:
  assumes "final_decision item = Some (JDict final)"
    "dict_get final ''final_recipients'' = Some (JList [])"
    "files w src = Some text" "fault env (length (trace w)) = None"
  shows "distribute env (Some item) src w =
     (Inr (), w\<lparr>trace := trace w @ [MoveFile src (error_path src)],
                files := ((files w)(src := None))(error_path src \<mapsto> text)\<rparr>)"
  using assms by (simp add: move_to_error_ok)



















lemma finalizer_failed_ok:
  assumes "fault env (length (trace w)) = None" "fault env (Suc (length (trace w))) = None"
    "files w src = Some text"
  shows "finalizer_failed env h src e w =
     (Inr (), w\<lparr>trace := trace w @ [UpdateOne h [''status'', ''error''], MoveFile src (error_path src)],
                collection := update_first h (\<lambda>d. d\<lparr>status := Error, error := Some (str_of_exn e)\<rparr>)
                                (collection w),
                files := ((files w)(src := None))(error_path src \<mapsto> text)\<rparr>)"
proof -
  let ?w1 = "w\<lparr>trace := trace w @ [UpdateOne h [''status'', ''error'']],
               collection := update_first h (\<lambda>d. d\<lparr>status := Error, error := Some (str_of_exn e)\<rparr>)
                                (collection w)\<rparr>"
  have u: "update_one env h [''status'', ''error'']
             (\<lambda>d. d\<lparr>status := Error, error := Some (str_of_exn e)\<rparr>) w = (Inr (), ?w1)"
    using assms(1) by (simp add: update_one_def and_then_def attempt_def)
  have m: "move_to_error env src ?w1 =
     (Inr (), ?w1\<lparr>trace := trace ?w1 @ [MoveFile src (error_path src)],
                files := ((files ?w1)(src := None))(error_path src \<mapsto> text)\<rparr>)"
    using assms(2,3) by (intro move_to_error_ok) simp_all
  show ?thesis
    unfolding finalizer_failed_def using u m by (simp add: and_then_def)
qed

section \<open>One run of \<^verbatim>\<open>process_file\<close> when nothing faults\<close>





lemma process_file_store:
  assumes "reliable env" "files w src = Some text" "process_file env src w = (r, w')"
  shows "\<exists>d ops. collection w' = replace_one_upsert (md5_hexdigest env text) d (collection w)
           \<and> trace w' = trace w @ pipeline_ops src (md5_hexdigest env text) @ ops
           \<and> (d = decided env (classified env src text)
               \<or> (\<exists>e. d = (decided env (classified env src text))
                            \<lparr>status := Error, error := Some (str_of_exn e)\<rparr>))"
proof -
  let ?h = "md5_hexdigest env text"
  let ?D = "decided env (classified env src text)"
  let ?w6 = "w\<lparr>trace := trace w @ pipeline_ops src ?h,
               collection := replace_one_upsert ?h ?D (collection w)\<rparr>"
  have hD: "nid ?D = ?h"
    by (simp add: decided_def nid_commit classified_def nid_foldl_commit new_news_item_def)
  obtain r7 w7 where d: "distribute env (Some ?D) src ?w6 = (r7, w7)"
    by (cases "distribute env (Some ?D) src ?w6")
  from fs_onlyD [OF fs_only_distribute d] obtain ops7 where
    7: "collection w7 = replace_one_upsert ?h ?D (collection w)"
       "trace w7 = trace w @ pipeline_ops src ?h @ ops7"
    by auto
  show ?thesis
  proof (cases r7)
    case (Inr u)
    with process_file_reliable [OF assms(1,2)] d assms(3) have "w' = w7" by simp
    with 7 show ?thesis by blast
  next
    case (Inl e)
    with process_file_reliable [OF assms(1,2)] d assms(3)
    have ff: "finalizer_failed env ?h src e w7 = (r, w')" by simp
    let ?F = "\<lambda>d. d\<lparr>status := Error, error := Some (str_of_exn e)\<rparr>"
    let ?w8 = "w7\<lparr>trace := trace w7 @ [UpdateOne ?h [''status'', ''error'']],
                  collection := update_first ?h ?F (collection w7)\<rparr>"
    have u: "update_one env ?h [''status'', ''error''] ?F w7 = (Inr (), ?w8)"
      by (rule update_one_reliable [OF assms(1)])
    have m: "move_to_error env src ?w8 = (r, w')"
      using ff u unfolding finalizer_failed_def by (simp add: and_then_def)
    from fs_onlyD [OF fs_only_move_to_error m] obtain ops8 where
      8: "collection w' = collection ?w8" "trace w' = trace ?w8 @ ops8" by auto
    have "find_one (collection w7) ?h = Some ?D" using 7(1) hD by (simp add: find_one_upsert)
    then have "update_first ?h ?F (collection w7) = update_first ?h (\<lambda>_. ?F ?D) (collection w7)"
      by (rule update_first_const)
    also have "\<dots> = replace_one_upsert ?h (?F ?D) (collection w)"
      using 7(1) hD by (simp add: update_first_upsert)
    finally have "collection w' = replace_one_upsert ?h (?F ?D) (collection w)"
      using 8(1) by simp
    moreover have "trace w' = trace w @ pipeline_ops src ?h @ (ops7 @ [UpdateOne ?h [''status'', ''error'']] @ ops8)"
      using 8(2) 7(2) by simp
    ultimately show ?thesis by blast
  qed
qed

lemma content_foldl_commit: "content (foldl (commit env) d as) = content d"
  by (induction as arbitrary: d) (simp_all add: commit_def)

lemma classified_results:
  "agents_results (classified env src text)
     = map (\<lambda>a. (agent_name a, sanitize_mongo_keys (get_llm_response env a text))) agents"
  by (simp add: classified_def agents_def commit_def new_news_item_def)

lemma classified_content: "content (classified env src text) = text"
  by (simp add: classified_def content_foldl_commit new_news_item_def)

lemma decided_results:
  "agents_results (decided env (classified env src text))
     = map (\<lambda>a. (agent_name a, sanitize_mongo_keys (get_llm_response env a text))) agents
       @ [(''finalizer_agent'',
           sanitize_mongo_keys (execute env FinalizerAgent (classified env src text)))]"
  by (simp add: decided_def commit_def classified_results agents_def)

lemma find_one_stored:
  assumes "reliable env" "files w src = Some text" "process_file env src w = (r, w')"
  shows "\<exists>d. find_one (collection w') (md5_hexdigest env text) = Some d
           \<and> d\<lparr>status := Completed, error := None\<rparr> = decided env (classified env src text)
           \<and> status d \<noteq> Processing"
proof -
  let ?h = "md5_hexdigest env text"
  let ?D = "decided env (classified env src text)"
  have hD: "nid ?D = ?h"
    by (simp add: decided_def nid_commit classified_def nid_foldl_commit new_news_item_def)
  have D: "status ?D = Completed" "error ?D = None"
    by (simp_all add: decided_def commit_def classified_def agents_def new_news_item_def)
  from process_file_store [OF assms] obtain d where
    c: "collection w' = replace_one_upsert ?h d (collection w)"
    and d: "d = ?D \<or> (\<exists>e. d = ?D\<lparr>status := Error, error := Some (str_of_exn e)\<rparr>)"
    by blast
  from d hD have "nid d = ?h" by auto
  with c have "find_one (collection w') ?h = Some d" by (simp add: find_one_upsert)
  moreover from d D have "d\<lparr>status := Completed, error := None\<rparr> = ?D" by auto
  moreover from d D have "status d \<noteq> Processing" by auto
  ultimately show ?thesis by blast
qed

text \<open>
  C3: partial-failure survival. With the store and the file system working, take any of
  the five classification stages whose generation call (or the parsing of its answer)
  raises \<open>e\<close>. After \<^verbatim>\<open>process_file\<close> the document holds \<^verbatim>\<open>{error: str(e)}\<close> as that
  stage's entry, every classification stage's entry is its own sanitized result (so the
  stages after the faulty one ran and committed normally), the Finalizer's entry is
  committed, and the status is no longer \<^verbatim>\<open>processing\<close>.
\<close>

theorem stage_fault_recorded_pipeline_continues:
  assumes "reliable env" "files w src = Some text" "process_file env src w = (r, w')"
    "a \<in> set agents" "classify_response env (agent_name a) text = Inl e"
  shows "\<exists>d. find_one (collection w') (md5_hexdigest env text) = Some d
           \<and> dict_get (agents_results d) (agent_name a) = Some (JDict [(''error'', JStr (str_of_exn e))])
           \<and> (\<forall>b\<in>set agents. dict_get (agents_results d) (agent_name b)
                 = Some (sanitize_mongo_keys (get_llm_response env b text)))
           \<and> dict_get (agents_results d) ''finalizer_agent''
                 = Some (sanitize_mongo_keys (execute env FinalizerAgent (classified env src text)))
           \<and> status d \<noteq> Processing"
proof -
  let ?D = "decided env (classified env src text)"
  from find_one_stored [OF assms(1-3)] obtain d where
    f: "find_one (collection w') (md5_hexdigest env text) = Some d"
    and d: "d\<lparr>status := Completed, error := None\<rparr> = ?D" and s: "status d \<noteq> Processing"
    by blast
  have "agents_results d = agents_results (d\<lparr>status := Completed, error := None\<rparr>)" by simp
  then have ar: "agents_results d = agents_results ?D" using d by simp
  have all: "\<forall>b\<in>set agents. dict_get (agents_results d) (agent_name b)
                 = Some (sanitize_mongo_keys (get_llm_response env b text))"
    unfolding ar decided_results by (simp add: agents_def)
  have fin: "dict_get (agents_results d) ''finalizer_agent''
                 = Some (sanitize_mongo_keys (execute env FinalizerAgent (classified env src text)))"
    unfolding ar decided_results by (simp add: agents_def)
  have "sanitize_mongo_keys (get_llm_response env a text) = JDict [(''error'', JStr (str_of_exn e))]"
    using assms(5) by (simp add: get_llm_response_def dict_of_items_def str_replace_def)
  with all assms(4) have "dict_get (agents_results d) (agent_name a)
      = Some (JDict [(''error'', JStr (str_of_exn e))])"
    by auto
  with f all fin s show ?thesis by blast
qed

text \<open>
  In the scenario the topic stage times out: its entry is \<^verbatim>\<open>{error: timeout}\<close>, the
  recipient stage after it committed its verdict, and the Finalizer committed.
\<close>

theorem stage_fault_recorded_pipeline_continues_witness:
  "reliable scenario_env
   \<and> files scenario_world ''data/feed/outage.txt'' = Some ''URGENT: outage''
   \<and> TopicAgent \<in> set agents
   \<and> classify_response scenario_env (agent_name TopicAgent) ''URGENT: outage''
       = Inl (GenerationError ''timeout'')
   \<and> (\<exists>d. find_one (collection (snd (process_file scenario_env ''data/feed/outage.txt'' scenario_world))) ''h1'' = Some d
        \<and> dict_get (agents_results d) ''topic_agent'' = Some (JDict [(''error'', JStr ''timeout'')])
        \<and> dict_get (agents_results d) ''recipient_agent''
            = Some (JDict [(''recipients'', JList [JStr ''Engineering''])])
        \<and> dict_get (agents_results d) ''finalizer_agent'' \<noteq> None
        \<and> status d \<noteq> Processing)"
proof -
  have 1: "reliable scenario_env" by (simp add: reliable_def scenario_env_def)
  have 2: "files scenario_world ''data/feed/outage.txt'' = Some ''URGENT: outage''"
    by (simp add: scenario_world_def)
  have 4: "TopicAgent \<in> set agents" by (simp add: agents_def)
  have 5: "classify_response scenario_env (agent_name TopicAgent) ''URGENT: outage''
       = Inl (GenerationError ''timeout'')"
    by (simp add: scenario_env_def)
  have 6: "sanitize_mongo_keys (get_llm_response scenario_env RecipientAgent ''URGENT: outage'')
       = JDict [(''recipients'', JList [JStr ''Engineering''])]"
    by (simp add: scenario_env_def get_llm_response_def dict_of_items_def str_replace_def)
  from stage_fault_recorded_pipeline_continues [OF 1 2 surjective_pairing 4 5]
  obtain d where d: "find_one (collection (snd (process_file scenario_env ''data/feed/outage.txt'' scenario_world)))
        (md5_hexdigest scenario_env ''URGENT: outage'') = Some d"
    "dict_get (agents_results d) (agent_name TopicAgent) = Some (JDict [(''error'', JStr (str_of_exn (GenerationError ''timeout'')))])"
    "\<forall>b\<in>set agents. dict_get (agents_results d) (agent_name b)
                 = Some (sanitize_mongo_keys (get_llm_response scenario_env b ''URGENT: outage''))"
    "dict_get (agents_results d) ''finalizer_agent'' \<noteq> None" "status d \<noteq> Processing"
    by auto
  from d(3) have "dict_get (agents_results d) (agent_name RecipientAgent)
      = Some (sanitize_mongo_keys (get_llm_response scenario_env RecipientAgent ''URGENT: outage''))"
    by (simp add: agents_def)
  with d 6 have "find_one (collection (snd (process_file scenario_env ''data/feed/outage.txt'' scenario_world))) ''h1'' = Some d
        \<and> dict_get (agents_results d) ''topic_agent'' = Some (JDict [(''error'', JStr ''timeout'')])
        \<and> dict_get (agents_results d) ''recipient_agent''
            = Some (JDict [(''recipients'', JList [JStr ''Engineering''])])
        \<and> dict_get (agents_results d) ''finalizer_agent'' \<noteq> None
        \<and> status d \<noteq> Processing"
    by (simp add: scenario_env_def)
  with 1 2 4 5 show ?thesis by blast
qed

section \<open>The claims about finalization and distribution\<close>

text \<open>
  The definitions to unfold when a run is evaluated on a concrete environment and world.
\<close>

lemmas store_defs = save_news_item_def get_news_item_def update_one_def attempt_def
  and_then_def try_except_def

lemmas file_defs = read_file_def os_makedirs_def shutil_copy2_def write_file_def os_remove_def
  shutil_move_def os_path_join_def os_path_basename_def RECIPIENTS_DIR_def ERROR_DIR_def

lemmas agent_defs = get_llm_response_def dict_of_items_def str_replace_def

lemmas orchestrator_defs = process_file_def new_news_item_def run_finalizer_def finalizer_failed_def
  agents_def move_to_error_def deliver_one_def slugify_def lower_char_def

text \<open>
  C6: no-recipient quarantine. For a completed document in the store whose
  \<^verbatim>\<open>final_decision\<close> has an empty recipients list, \<^verbatim>\<open>_distribute\<close> (the source artifact
  exists and the move succeeds) moves the source to the error sink and returns normally:
  no other file is written, the collection is unchanged, so the document is still
  completed with the same decision, and the failure handler of \<^verbatim>\<open>process_file\<close> does
  not run.
\<close>

theorem no_recipients_is_delivery_failure:
  assumes "find_one (collection w) (nid item) = Some item" "status item = Completed"
    "final_decision item = Some (JDict final)"
    "dict_get final ''final_recipients'' = Some (JList [])"
    "files w src = Some text" "fault env (length (trace w)) = None"
  shows "\<exists>w'. distribute env (Some item) src w = (Inr (), w')
           \<and> files w' = ((files w)(src := None))(error_path src \<mapsto> text)
           \<and> trace w' = trace w @ [MoveFile src (error_path src)]
           \<and> collection w' = collection w
           \<and> map_option status (find_one (collection w') (nid item)) = Some Completed
           \<and> map_option final_decision (find_one (collection w') (nid item))
               = Some (Some (JDict final))
           \<and> try_except (distribute env (Some item) src) (finalizer_failed env (nid item) src) w
               = (Inr (), w')"
  using assms distribute_no_recipients [OF assms(3-6)]
  by (simp add: try_except_def)

text \<open>
  The declined document of the examples: the artifact ends in \<^verbatim>\<open>data/error\<close>, the
  collection is as before.
\<close>

theorem no_recipients_is_delivery_failure_witness:
  "find_one [declined_item] (nid declined_item) = Some declined_item
   \<and> status declined_item = Completed
   \<and> dict_get [(''is_safe'', JBool True), (''final_recipients'', JList [])] ''final_recipients''
       = Some (JList [])
   \<and> fst (distribute scenario_env (Some declined_item) ''data/feed/outage.txt''
        (scenario_world\<lparr>collection := [declined_item]\<rparr>)) = Inr ()
   \<and> files (snd (distribute scenario_env (Some declined_item) ''data/feed/outage.txt''
        (scenario_world\<lparr>collection := [declined_item]\<rparr>))) ''data/error/outage.txt''
       = Some ''URGENT: outage''
   \<and> files (snd (distribute scenario_env (Some declined_item) ''data/feed/outage.txt''
        (scenario_world\<lparr>collection := [declined_item]\<rparr>))) ''data/feed/outage.txt'' = None
   \<and> collection (snd (distribute scenario_env (Some declined_item) ''data/feed/outage.txt''
        (scenario_world\<lparr>collection := [declined_item]\<rparr>))) = [declined_item]"
  using no_recipients_is_delivery_failure [of "scenario_world\<lparr>collection := [declined_item]\<rparr>"
      declined_item "[(''is_safe'', JBool True), (''final_recipients'', JList [])]"
      "''data/feed/outage.txt''" "''URGENT: outage''" scenario_env]
  by (auto simp: declined_item_def scenario_world_def scenario_env_def error_path_def
        os_path_join_def os_path_basename_def ERROR_DIR_def)







lemma finalizer_fallback_committed:
  assumes "reliable env" "files w src = Some bytes"
    "finalize_response env bytes (agents_results (classified env src bytes)) = Inl e"
    "process_file env src w = (r, w')"
  shows "r = Inr ()
       \<and> find_one (collection w') (md5_hexdigest env bytes) = Some (decided env (classified env src bytes))
       \<and> status (decided env (classified env src bytes)) = Completed
       \<and> error (decided env (classified env src bytes)) = None
       \<and> final_decision (decided env (classified env src bytes)) = Some (JDict (fallback_decision e))
       \<and> files w' = ((files w)(src := None))(error_path src \<mapsto> bytes)"
proof -
  let ?h = "md5_hexdigest env bytes"
  let ?C = "classified env src bytes"
  let ?D = "decided env ?C"
  let ?w6 = "w\<lparr>trace := trace w @ pipeline_ops src ?h,
               collection := replace_one_upsert ?h ?D (collection w)\<rparr>"
  have ex: "execute env FinalizerAgent ?C = JDict (fallback_decision e)"
    using assms(3) by (simp add: classified_content fallback_decision_def)
  have san: "sanitize_mongo_keys (JDict (fallback_decision e)) = JDict (fallback_decision e)"
    by (simp add: fallback_decision_def dict_of_items_def str_replace_def)
  have fd: "final_decision ?D = Some (JDict (fallback_decision e))"
    by (simp add: decided_def commit_def ex san del: execute.simps sanitize_mongo_keys.simps)
  have st: "status ?D = Completed" "error ?D = None"
    by (simp_all add: decided_def commit_def classified_def agents_def new_news_item_def)
  have hD: "nid ?D = ?h"
    by (simp add: decided_def nid_commit classified_def nid_foldl_commit new_news_item_def)
  have "distribute env (Some ?D) src ?w6 =
     (Inr (), ?w6\<lparr>trace := trace ?w6 @ [MoveFile src (error_path src)],
                files := ((files ?w6)(src := None))(error_path src \<mapsto> bytes)\<rparr>)"
    using assms(1,2) by (intro distribute_no_recipients [OF fd])
      (simp_all add: fallback_decision_def reliable_def)
  with process_file_reliable [OF assms(1,2)] assms(4)
  have "r = Inr ()" and
    w': "w' = ?w6\<lparr>trace := trace ?w6 @ [MoveFile src (error_path src)],
                files := ((files ?w6)(src := None))(error_path src \<mapsto> bytes)\<rparr>"
    by simp_all
  from w' hD have "find_one (collection w') ?h = Some ?D" by (simp add: find_one_upsert)
  moreover from w' have "files w' = ((files w)(src := None))(error_path src \<mapsto> bytes)" by simp
  ultimately show ?thesis using \<open>r = Inr ()\<close> st fd by simp
qed

text \<open>
  C2, amended: what the Orchestrator does when finalization fails, in its two forms.
  First part: when the finalization block raises \<open>e\<close> (the source artifact still in
  place, the handler's two operations succeeding), the document's status is set to
  \<^verbatim>\<open>error\<close>, \<^verbatim>\<open>str(e)\<close> is recorded and the source is moved to the error sink. Second
  part: when the Finalizer's generation call faults, \<^verbatim>\<open>execute\<close> returns the fallback
  record with an \<^verbatim>\<open>error\<close> field; that record is committed as \<^verbatim>\<open>final_decision\<close>, the
  document is marked \<^verbatim>\<open>completed\<close> with no error recorded, and the source is moved to
  the error sink because the fallback names no recipient.
\<close>

theorem finalizer_failure_handling:
  "(run_finalizer env h src item w = (Inl e, w1) \<and> files w1 src = Some bytes
      \<and> fault env (length (trace w1)) = None \<and> fault env (Suc (length (trace w1))) = None
    \<longrightarrow> try_except (run_finalizer env h src item) (finalizer_failed env h src) w
          = (Inr (), w1\<lparr>trace := trace w1 @ [UpdateOne h [''status'', ''error''],
                                             MoveFile src (error_path src)],
                        collection := update_first h
                          (\<lambda>d. d\<lparr>status := Error, error := Some (str_of_exn e)\<rparr>) (collection w1),
                        files := ((files w1)(src := None))(error_path src \<mapsto> bytes)\<rparr>))
   \<and> (reliable env \<and> files w src = Some bytes
      \<and> finalize_response env bytes (agents_results (classified env src bytes)) = Inl e
      \<and> process_file env src w = (r, w')
    \<longrightarrow> r = Inr ()
        \<and> (\<exists>d. find_one (collection w') (md5_hexdigest env bytes) = Some d
              \<and> status d = Completed \<and> error d = None
              \<and> final_decision d = Some (JDict (fallback_decision e)))
        \<and> files w' = ((files w)(src := None))(error_path src \<mapsto> bytes))"
proof (intro conjI impI)
  assume a: "run_finalizer env h src item w = (Inl e, w1) \<and> files w1 src = Some bytes
      \<and> fault env (length (trace w1)) = None \<and> fault env (Suc (length (trace w1))) = None"
  then have "finalizer_failed env h src e w1 =
     (Inr (), w1\<lparr>trace := trace w1 @ [UpdateOne h [''status'', ''error''], MoveFile src (error_path src)],
                collection := update_first h (\<lambda>d. d\<lparr>status := Error, error := Some (str_of_exn e)\<rparr>)
                                (collection w1),
                files := ((files w1)(src := None))(error_path src \<mapsto> bytes)\<rparr>)"
    by (intro finalizer_failed_ok) simp_all
  with a show "try_except (run_finalizer env h src item) (finalizer_failed env h src) w
          = (Inr (), w1\<lparr>trace := trace w1 @ [UpdateOne h [''status'', ''error''],
                                             MoveFile src (error_path src)],
                        collection := update_first h
                          (\<lambda>d. d\<lparr>status := Error, error := Some (str_of_exn e)\<rparr>) (collection w1),
                        files := ((files w1)(src := None))(error_path src \<mapsto> bytes)\<rparr>)"
    by (simp add: try_except_def)
next
  assume b: "reliable env \<and> files w src = Some bytes
      \<and> finalize_response env bytes (agents_results (classified env src bytes)) = Inl e
      \<and> process_file env src w = (r, w')"
  then have fb: "r = Inr ()
       \<and> find_one (collection w') (md5_hexdigest env bytes) = Some (decided env (classified env src bytes))
       \<and> status (decided env (classified env src bytes)) = Completed
       \<and> error (decided env (classified env src bytes)) = None
       \<and> final_decision (decided env (classified env src bytes)) = Some (JDict (fallback_decision e))
       \<and> files w' = ((files w)(src := None))(error_path src \<mapsto> bytes)"
    by (intro finalizer_fallback_committed) simp_all
  from fb show "r = Inr ()" by simp
  from fb show "\<exists>d. find_one (collection w') (md5_hexdigest env bytes) = Some d
              \<and> status d = Completed \<and> error d = None
              \<and> final_decision d = Some (JDict (fallback_decision e))"
    by blast
  from fb show "files w' = ((files w)(src := None))(error_path src \<mapsto> bytes)" by simp
qed

text \<open>
  One run in which the Finalizer's generation call faults.
\<close>

lemma finalizer_down_run:
  assumes "(r, w) = process_file finalizer_down_env ''data/feed/outage.txt'' scenario_world"
  shows "r = Inr ()
       \<and> map status (collection w) = [Completed]
       \<and> map error (collection w) = [None]
       \<and> map final_decision (collection w)
           = [Some (JDict [(''is_safe'', JBool False), (''final_recipients'', JList []),
                           (''error'', JStr ''service unavailable'')])]
       \<and> files w ''data/feed/outage.txt'' = None
       \<and> files w ''data/error/outage.txt'' = Some ''URGENT: outage''"
  using assms
  by (simp add: finalizer_down_env_def scenario_env_def scenario_world_def
        store_defs file_defs agent_defs orchestrator_defs Let_def)

text \<open>
  C2, as stated: a Finalizer result with an \<^verbatim>\<open>error\<close> field quarantines the document and
  never marks it completed. It does not: the generation call of the Finalizer faults,
  the record with the \<^verbatim>\<open>error\<close> field is committed as the decision, and the document
  is marked \<^verbatim>\<open>completed\<close> with no error recorded.
\<close>

theorem finalizer_error_record_marked_completed:
  "finalize_response finalizer_down_env ''URGENT: outage'' [] = Inl (GenerationError ''service unavailable'')
   \<and> map final_decision (collection (snd (process_file finalizer_down_env ''data/feed/outage.txt'' scenario_world)))
       = [Some (JDict [(''is_safe'', JBool False), (''final_recipients'', JList []),
                       (''error'', JStr ''service unavailable'')])]
   \<and> map status (collection (snd (process_file finalizer_down_env ''data/feed/outage.txt'' scenario_world)))
       = [Completed]
   \<and> map error (collection (snd (process_file finalizer_down_env ''data/feed/outage.txt'' scenario_world)))
       = [None]"
  using finalizer_down_run [OF prod.collapse]
  by (simp add: finalizer_down_env_def)

lemma store_down_run:
  assumes "(r, w) = run_finalizer store_down_env ''h1'' ''data/feed/outage.txt''
                      (Some classified_item) classified_world"
  shows "r = Inl (PyMongoError ''connection lost'') \<and> length (trace w) = 1
       \<and> files w ''data/feed/outage.txt'' = Some ''URGENT: outage''
       \<and> collection w = [classified_item]"
  using assms
  by (simp add: store_down_env_def scenario_env_def classified_world_def scenario_world_def
        run_finalizer_def store_defs Let_def)

text \<open>
  Both parts: the store is down when the Finalizer commits, so the block raises and the
  handler quarantines; and the run in which the generation call faults.
\<close>

theorem finalizer_failure_handling_witness:
  "fst (run_finalizer store_down_env ''h1'' ''data/feed/outage.txt'' (Some classified_item)
          classified_world) = Inl (PyMongoError ''connection lost'')
   \<and> map status (collection (snd (try_except
         (run_finalizer store_down_env ''h1'' ''data/feed/outage.txt'' (Some classified_item))
         (finalizer_failed store_down_env ''h1'' ''data/feed/outage.txt'') classified_world)))
       = [Error]
   \<and> map error (collection (snd (try_except
         (run_finalizer store_down_env ''h1'' ''data/feed/outage.txt'' (Some classified_item))
         (finalizer_failed store_down_env ''h1'' ''data/feed/outage.txt'') classified_world)))
       = [Some ''connection lost'']
   \<and> files (snd (try_except
         (run_finalizer store_down_env ''h1'' ''data/feed/outage.txt'' (Some classified_item))
         (finalizer_failed store_down_env ''h1'' ''data/feed/outage.txt'') classified_world))
         ''data/error/outage.txt'' = Some ''URGENT: outage''
   \<and> files (snd (try_except
         (run_finalizer store_down_env ''h1'' ''data/feed/outage.txt'' (Some classified_item))
         (finalizer_failed store_down_env ''h1'' ''data/feed/outage.txt'') classified_world))
         ''data/feed/outage.txt'' = None
   \<and> reliable finalizer_down_env
   \<and> finalize_response finalizer_down_env ''URGENT: outage''
         (agents_results (classified finalizer_down_env ''data/feed/outage.txt'' ''URGENT: outage''))
       = Inl (GenerationError ''service unavailable'')
   \<and> fst (process_file finalizer_down_env ''data/feed/outage.txt'' scenario_world) = Inr ()
   \<and> files (snd (process_file finalizer_down_env ''data/feed/outage.txt'' scenario_world))
         ''data/error/outage.txt'' = Some ''URGENT: outage''"
proof -
  let ?src = "''data/feed/outage.txt''"
  let ?bytes = "''URGENT: outage''"
  let ?e = "PyMongoError ''connection lost''"
  let ?w1 = "snd (run_finalizer store_down_env ''h1'' ?src (Some classified_item) classified_world)"
  let ?T = "try_except (run_finalizer store_down_env ''h1'' ?src (Some classified_item))
              (finalizer_failed store_down_env ''h1'' ?src) classified_world"
  note run = store_down_run [OF prod.collapse]
  have a1: "run_finalizer store_down_env ''h1'' ?src (Some classified_item) classified_world
              = (Inl ?e, ?w1)"
    using run by (simp add: prod_eq_iff)
  have a2: "files ?w1 ?src = Some ?bytes" using run by simp
  have a3: "fault store_down_env (length (trace ?w1)) = None
            \<and> fault store_down_env (Suc (length (trace ?w1))) = None"
    using run by (simp add: store_down_env_def)
  have ep: "error_path ?src = ''data/error/outage.txt''"
    by (simp add: error_path_def file_defs)
  have nid: "nid classified_item = ''h1''"
    by (simp add: classified_item_def classified_def nid_foldl_commit new_news_item_def
          scenario_env_def)
  from finalizer_failure_handling [where env = store_down_env and h = "''h1''" and src = ?src
      and item = "Some classified_item" and w = classified_world and e = ?e and ?w1.0 = ?w1
      and bytes = ?bytes, THEN conjunct1] a1 a2 a3
  have T: "?T = (Inr (), ?w1\<lparr>trace := trace ?w1 @ [UpdateOne ''h1'' [''status'', ''error''],
                                                   MoveFile ?src (error_path ?src)],
                    collection := update_first ''h1''
                      (\<lambda>d. d\<lparr>status := Error, error := Some (str_of_exn ?e)\<rparr>) (collection ?w1),
                    files := ((files ?w1)(?src := None))(error_path ?src \<mapsto> ?bytes)\<rparr>)"
    by simp
  have c: "collection ?w1 = [classified_item]" using run by simp
  have p1: "map status (collection (snd ?T)) = [Error]"
       "map error (collection (snd ?T)) = [Some ''connection lost'']"
       "files (snd ?T) ''data/error/outage.txt'' = Some ?bytes"
       "files (snd ?T) ?src = None"
    unfolding T by (simp_all add: c nid ep)
  have b1: "reliable finalizer_down_env"
    by (simp add: reliable_def finalizer_down_env_def scenario_env_def)
  have b2: "files scenario_world ?src = Some ?bytes" by (simp add: scenario_world_def)
  have b3: "finalize_response finalizer_down_env ?bytes
         (agents_results (classified finalizer_down_env ?src ?bytes))
       = Inl (GenerationError ''service unavailable'')"
    by (simp add: finalizer_down_env_def)
  from finalizer_failure_handling [where env = finalizer_down_env and src = ?src
      and w = scenario_world and bytes = ?bytes and e = "GenerationError ''service unavailable''"
      and r = "fst (process_file finalizer_down_env ?src scenario_world)"
      and w' = "snd (process_file finalizer_down_env ?src scenario_world)", THEN conjunct2]
    b1 b2 b3
  have p2: "fst (process_file finalizer_down_env ?src scenario_world) = Inr ()"
       "files (snd (process_file finalizer_down_env ?src scenario_world))
          = ((files scenario_world)(?src := None))(error_path ?src \<mapsto> ?bytes)"
    by simp_all
  have p3: "files (snd (process_file finalizer_down_env ?src scenario_world))
              ''data/error/outage.txt'' = Some ?bytes"
    unfolding p2(2) by (simp add: ep)
  have a0: "fst (run_finalizer store_down_env ''h1'' ?src (Some classified_item) classified_world)
              = Inl ?e"
    using run by simp
  show ?thesis using a0 p1 b1 b3 p2(1) p3 by blast
qed

section \<open>The safety override\<close>





section \<open>Ingestion of bytes already seen\<close>





section \<open>Failing store operations\<close>

text \<open>
  One run in which the store fails on the commit of the first stage.
\<close>

lemma flaky_store_run:
  assumes "(r, w) = process_file flaky_store_env ''data/feed/outage.txt'' scenario_world"
  shows "r = Inr ()
       \<and> trace w =
          [ReadFile ''data/feed/outage.txt'', ReplaceOne ''h1'',
           UpdateOne ''h1'' [''agents_results.urgency_agent''],
           UpdateOne ''h1'' [''agents_results.sensitivity_agent''], FindOne ''h1'',
           UpdateOne ''h1'' [''agents_results.topic_agent''], FindOne ''h1'',
           UpdateOne ''h1'' [''agents_results.type_agent''], FindOne ''h1'',
           UpdateOne ''h1'' [''agents_results.recipient_agent''], FindOne ''h1'',
           UpdateOne ''h1'' [''agents_results.finalizer_agent''],
           UpdateOne ''h1'' [''final_decision'', ''status''], FindOne ''h1'',
           MakeDirs ''data/recipients/engineering'',
           CopyFile ''data/feed/outage.txt'' ''data/recipients/engineering/outage.txt'',
           WriteFile ''data/recipients/engineering/outage.txt.json'',
           RemoveFile ''data/feed/outage.txt'']
       \<and> map status (collection w) = [Completed]
       \<and> map error (collection w) = [None]
       \<and> map (\<lambda>d. map fst (agents_results d)) (collection w)
           = [[''sensitivity_agent'', ''topic_agent'', ''type_agent'', ''recipient_agent'',
               ''finalizer_agent'']]
       \<and> files w ''data/recipients/engineering/outage.txt'' = Some ''URGENT: outage''"
  using assms
  by (simp add: flaky_store_env_def scenario_env_def scenario_world_def
        store_defs file_defs agent_defs orchestrator_defs Let_def)

text \<open>
  C8, as stated: a failing persistence operation is retried once and its error then
  propagated. Neither happens here: the commit of the urgency stage fails, the next
  operation is the commit of the next stage (no second attempt), \<^verbatim>\<open>process_file\<close>
  returns normally, and the document is completed and distributed without an entry for
  the urgency stage and without a recorded error.
\<close>

theorem store_failure_in_stage_is_swallowed:
  "fault flaky_store_env 2 = Some (PyMongoError ''connection lost'')
   \<and> trace (snd (process_file flaky_store_env ''data/feed/outage.txt'' scenario_world)) ! 2
       = UpdateOne ''h1'' [''agents_results.urgency_agent'']
   \<and> trace (snd (process_file flaky_store_env ''data/feed/outage.txt'' scenario_world)) ! 3
       = UpdateOne ''h1'' [''agents_results.sensitivity_agent'']
   \<and> fst (process_file flaky_store_env ''data/feed/outage.txt'' scenario_world) = Inr ()
   \<and> map status (collection (snd (process_file flaky_store_env ''data/feed/outage.txt'' scenario_world)))
       = [Completed]
   \<and> map error (collection (snd (process_file flaky_store_env ''data/feed/outage.txt'' scenario_world)))
       = [None]
   \<and> map committed_stages
        (collection (snd (process_file flaky_store_env ''data/feed/outage.txt'' scenario_world)))
       = [[''sensitivity_agent'', ''topic_agent'', ''type_agent'', ''recipient_agent'',
           ''finalizer_agent'']]
   \<and> files (snd (process_file flaky_store_env ''data/feed/outage.txt'' scenario_world))
         ''data/recipients/engineering/outage.txt'' = Some ''URGENT: outage''"
  using flaky_store_run [OF prod.collapse]
  by (simp add: flaky_store_env_def committed_stages_def [abs_def])

text \<open>
  C8, amended: every persistence operation is attempted exactly once per call, never
  retried; when the attempt fails, the exception goes to the calling method and the
  collection is unchanged. In the stage loop a failure of a commit or of the reload
  after it is caught, and the loop goes on: whatever fails, the commits attempted in
  the loop are exactly one per stage, in the declared order.
\<close>

theorem store_operations_attempted_once:
  "(save_news_item env item w = (r1, w1) \<longrightarrow>
      trace w1 = trace w @ [ReplaceOne (nid item)]
      \<and> (\<forall>e. fault env (length (trace w)) = Some e \<longrightarrow> r1 = Inl e \<and> collection w1 = collection w))
   \<and> (get_news_item env i w = (r2, w2) \<longrightarrow>
      trace w2 = trace w @ [FindOne i]
      \<and> (\<forall>e. fault env (length (trace w)) = Some e \<longrightarrow> r2 = Inl e \<and> collection w2 = collection w))
   \<and> (update_one env i ps f w = (r3, w3) \<longrightarrow>
      trace w3 = trace w @ [UpdateOne i ps]
      \<and> (\<forall>e. fault env (length (trace w)) = Some e \<longrightarrow> r3 = Inl e \<and> collection w3 = collection w))
   \<and> (run_agents env as h (Some it) w = (item', w') \<and> nid it = h
        \<and> find_one (collection w) h \<noteq> None \<longrightarrow>
      (\<exists>ops. trace w' = trace w @ ops \<and> filter is_commit ops = map (stage_commit h) as))"
proof (intro conjI impI)
  assume a: "save_news_item env item w = (r1, w1)"
  from save_news_item_once [OF a] show "trace w1 = trace w @ [ReplaceOne (nid item)]" by simp
  from save_news_item_once [OF a]
  show "\<forall>e. fault env (length (trace w)) = Some e \<longrightarrow> r1 = Inl e \<and> collection w1 = collection w"
    by auto
next
  assume a: "get_news_item env i w = (r2, w2)"
  from get_news_item_once [OF a] show "trace w2 = trace w @ [FindOne i]" by simp
  from get_news_item_once [OF a]
  show "\<forall>e. fault env (length (trace w)) = Some e \<longrightarrow> r2 = Inl e \<and> collection w2 = collection w"
    by auto
next
  assume a: "update_one env i ps f w = (r3, w3)"
  from update_one_once [OF a] show "trace w3 = trace w @ [UpdateOne i ps]" by simp
  from update_one_once [OF a]
  show "\<forall>e. fault env (length (trace w)) = Some e \<longrightarrow> r3 = Inl e \<and> collection w3 = collection w"
    by auto
next
  assume a: "run_agents env as h (Some it) w = (item', w') \<and> nid it = h
        \<and> find_one (collection w) h \<noteq> None"
  then have "\<exists>ops it'. trace w' = trace w @ ops \<and> filter is_commit ops = map (stage_commit h) as
           \<and> item' = Some it' \<and> nid it' = h \<and> find_one (collection w') h \<noteq> None"
    using run_agents_commits [of env as h it w item' w'] by simp
  then show "\<exists>ops. trace w' = trace w @ ops \<and> filter is_commit ops = map (stage_commit h) as"
    by blast
qed

text \<open>
  In the world where the first stage is about to commit, the store fails: each of the
  three operations returns the exception after one attempt, and the loop still attempts
  the commit of each of the five stages once.
\<close>

theorem store_operations_attempted_once_witness:
  "fault flaky_store_env (length (trace saved_world)) = Some (PyMongoError ''connection lost'')
   \<and> fst (save_news_item flaky_store_env saved_item saved_world) = Inl (PyMongoError ''connection lost'')
   \<and> fst (get_news_item flaky_store_env ''h1'' saved_world) = Inl (PyMongoError ''connection lost'')
   \<and> fst (update_one flaky_store_env ''h1'' [''agents_results.urgency_agent''] id saved_world)
       = Inl (PyMongoError ''connection lost'')
   \<and> trace (snd (update_one flaky_store_env ''h1'' [''agents_results.urgency_agent''] id saved_world))
       = trace saved_world @ [UpdateOne ''h1'' [''agents_results.urgency_agent'']]
   \<and> collection (snd (update_one flaky_store_env ''h1'' [''agents_results.urgency_agent''] id saved_world))
       = collection saved_world
   \<and> nid saved_item = ''h1''
   \<and> find_one (collection saved_world) ''h1'' \<noteq> None
   \<and> filter is_commit
        (drop (length (trace saved_world))
           (trace (snd (run_agents flaky_store_env agents ''h1'' (Some saved_item) saved_world))))
       = map (stage_commit ''h1'') agents"
proof -
  let ?e = "PyMongoError ''connection lost''"
  let ?ra = "run_agents flaky_store_env agents ''h1'' (Some saved_item) saved_world"
  have 0: "fault flaky_store_env (length (trace saved_world)) = Some ?e"
    by (simp add: flaky_store_env_def saved_world_def)
  have n: "nid saved_item = ''h1''"
    by (simp add: saved_item_def new_news_item_def scenario_env_def)
  have f: "find_one (collection saved_world) ''h1'' \<noteq> None"
    by (simp add: saved_world_def n)
  note inst = store_operations_attempted_once [where env = flaky_store_env and w = saved_world
      and item = saved_item
      and ?r1.0 = "fst (save_news_item flaky_store_env saved_item saved_world)"
      and ?w1.0 = "snd (save_news_item flaky_store_env saved_item saved_world)"
      and i = "''h1''"
      and ?r2.0 = "fst (get_news_item flaky_store_env ''h1'' saved_world)"
      and ?w2.0 = "snd (get_news_item flaky_store_env ''h1'' saved_world)"
      and ps = "[''agents_results.urgency_agent'']" and f = id
      and ?r3.0 = "fst (update_one flaky_store_env ''h1'' [''agents_results.urgency_agent''] id saved_world)"
      and ?w3.0 = "snd (update_one flaky_store_env ''h1'' [''agents_results.urgency_agent''] id saved_world)"
      and as = agents and h = "''h1''" and it = saved_item
      and item' = "fst ?ra" and w' = "snd ?ra"]
  from inst 0 have
    s: "fst (save_news_item flaky_store_env saved_item saved_world) = Inl ?e"
    and g: "fst (get_news_item flaky_store_env ''h1'' saved_world) = Inl ?e"
    and u: "fst (update_one flaky_store_env ''h1'' [''agents_results.urgency_agent''] id saved_world) = Inl ?e"
      "trace (snd (update_one flaky_store_env ''h1'' [''agents_results.urgency_agent''] id saved_world))
         = trace saved_world @ [UpdateOne ''h1'' [''agents_results.urgency_agent'']]"
      "collection (snd (update_one flaky_store_env ''h1'' [''agents_results.urgency_agent''] id saved_world))
         = collection saved_world"
    by simp_all
  from inst n f obtain ops where
    "trace (snd ?ra) = trace saved_world @ ops" "filter is_commit ops = map (stage_commit ''h1'') agents"
    by auto
  then have l: "filter is_commit (drop (length (trace saved_world)) (trace (snd ?ra)))
       = map (stage_commit ''h1'') agents"
    by simp
  show ?thesis using 0 s g u n f l by blast
qed

end
